theory Spec2Isabelle
  imports Complex_Main
begin

section \<open>JavaScript numbers\<close>

text \<open>
  The component computes with JavaScript numbers, which are doubles. Pointer
  coordinates, clock readings and the viewport height are finite numbers, modelled as
  \<open>real\<close>. A division can leave the finite range: JavaScript does not raise on a zero
  divisor, it yields \<open>Infinity\<close>, \<open>-Infinity\<close> or \<open>NaN\<close>. HOL's own \<open>x / 0 = 0\<close> is
  not what the program does, so every division of the source goes through \<open>js_div\<close>
  and its result is a \<open>jsnum\<close>. Divisors in the source are never the negative zero
  (they are a difference of clock readings, an initial literal \<open>0\<close>, or half the
  viewport height), so one zero suffices.

  Sums and differences of pixel coordinates and of clock readings are exact in the
  double format. A quotient is not: the elapsed time \<open>ms / 1000\<close> and the velocity
  \<open>totalDistance / totalTime\<close> are rounded, and the comparison of the velocity with 500
  sees the rounded value. \<open>round_double\<close> is that rounding: to the nearest number with
  a significand of 53 bits, a tie to the even one, with the fixed spacing \<open>2^-1074\<close>
  below \<open>2^-1022\<close>. \<open>js_number\<close> adds the overflow to an infinity from \<open>2^1024\<close> on.
  The offset and the opacity handed to the style are continuous outputs on which no
  branch depends; they are computed on the reals.
\<close>

datatype jsnum = Fin real | PInf | NInf | NaN

definition js_div :: "real \<Rightarrow> real \<Rightarrow> jsnum" where
  "js_div a b =
     (if b \<noteq> 0 then Fin (a / b)
      else if 0 < a then PInf
      else if a < 0 then NInf
      else NaN)"

fun js_sub :: "jsnum \<Rightarrow> jsnum \<Rightarrow> jsnum" where
  "js_sub (Fin a) (Fin b) = Fin (a - b)"
| "js_sub NaN _ = NaN"
| "js_sub _ NaN = NaN"
| "js_sub PInf PInf = NaN"
| "js_sub NInf NInf = NaN"
| "js_sub PInf _ = PInf"
| "js_sub NInf _ = NInf"
| "js_sub (Fin a) PInf = NInf"
| "js_sub (Fin a) NInf = PInf"

text \<open>
  The binary exponent of a positive number, found by halving or doubling it into
  \<open>[1, 2)\<close>: at most 1024 halvings (beyond is overflow) and at most 1022 doublings
  (beyond is the subnormal range, which keeps the exponent \<open>-1022\<close>).
\<close>

fun halvings :: "nat \<Rightarrow> real \<Rightarrow> nat" where
  "halvings 0 a = 0"
| "halvings (Suc k) a = (if a < 2 then 0 else Suc (halvings k (a / 2)))"

fun doublings :: "nat \<Rightarrow> real \<Rightarrow> nat" where
  "doublings 0 a = 0"
| "doublings (Suc k) a = (if 1 \<le> a then 0 else Suc (doublings k (2 * a)))"

definition exponent :: "real \<Rightarrow> int" where
  "exponent a = (if 1 \<le> a then int (halvings 1024 a) else - int (doublings 1022 a))"

text \<open>The spacing of the doubles around a positive number: \<open>2 ^ (exponent - 52)\<close>.\<close>

definition ulp :: "real \<Rightarrow> real" where
  "ulp a =
     (let e = exponent a
      in if 52 \<le> e then 2 ^ nat (e - 52) else 1 / 2 ^ nat (52 - e))"

definition round_even :: "real \<Rightarrow> int" where
  "round_even q =
     (let f = \<lfloor>q\<rfloor>;
          r = q - of_int f
      in if r < 1 / 2 then f
         else if 1 / 2 < r then f + 1
         else if even f then f else f + 1)"

definition round_double :: "real \<Rightarrow> real" where
  "round_double x =
     (if x = 0 then 0
      else
        let a = \<bar>x\<bar>;
            u = ulp a
        in sgn x * (of_int (round_even (a / u)) * u))"

definition js_number :: "real \<Rightarrow> jsnum" where
  "js_number x =
     (let r = round_double x
      in if 2 ^ 1024 \<le> r then PInf
         else if r \<le> - (2 ^ 1024) then NInf
         else Fin r)"

fun js_round :: "jsnum \<Rightarrow> jsnum" where
  "js_round (Fin x) = js_number x"
| "js_round v = v"

text \<open>\<open>Math.max\<close> of two numbers: \<open>NaN\<close> if either is.\<close>

fun js_max :: "jsnum \<Rightarrow> jsnum \<Rightarrow> jsnum" where
  "js_max NaN _ = NaN"
| "js_max _ NaN = NaN"
| "js_max PInf _ = PInf"
| "js_max _ PInf = PInf"
| "js_max NInf y = y"
| "js_max x NInf = x"
| "js_max (Fin a) (Fin b) = Fin (max a b)"

text \<open>The comparisons \<open>x > y\<close> and \<open>x <= y\<close>: false whenever an operand is \<open>NaN\<close>.\<close>

fun js_gt :: "jsnum \<Rightarrow> jsnum \<Rightarrow> bool" where
  "js_gt NaN _ = False"
| "js_gt _ NaN = False"
| "js_gt (Fin a) (Fin b) = (b < a)"
| "js_gt PInf PInf = False"
| "js_gt PInf _ = True"
| "js_gt _ PInf = False"
| "js_gt NInf _ = False"
| "js_gt (Fin a) NInf = True"

fun js_le :: "jsnum \<Rightarrow> jsnum \<Rightarrow> bool" where
  "js_le NaN _ = False"
| "js_le _ NaN = False"
| "js_le (Fin a) (Fin b) = (a \<le> b)"
| "js_le NInf _ = True"
| "js_le _ PInf = True"
| "js_le PInf _ = False"
| "js_le (Fin a) NInf = False"

text \<open>
  \<open>v || d\<close> on a value of type \<open>number | null\<close>: the fallback \<open>d\<close> is taken when \<open>v\<close>
  is \<open>null\<close> and also when it is the number \<open>0\<close>, which is falsy.
\<close>

fun or_else :: "real option \<Rightarrow> real \<Rightarrow> real" where
  "or_else None d = d"
| "or_else (Some v) d = (if v = 0 then d else v)"

section \<open>The sheet component\<close>

text \<open>
  \<open>drag_state\<close> is the object held by \<open>useState\<close> in \<open>Sheet\<close>; \<open>sheet\<close> gathers what
  the three handlers read and write: the drag state, the overlay opacity, the inline
  style of the content element behind \<open>contentRef\<close> (\<open>None\<close> when the ref is not
  attached), the host's visibility flag with the log of the calls made to its setter
  \<open>setIsOpened\<close>, and the callbacks handed to \<open>setTimeout\<close> (each assigns a
  transform 10 ms later). Each handler is modelled as run by the latest render, so the
  \<open>dragState\<close> it reads and the \<open>prev\<close> of its functional update are the same value.
  The clock \<open>Date.now()\<close> and \<open>window.innerHeight\<close> are parameters; the two clock
  readings that one move event can take are the same reading.
\<close>

datatype dir = Up | Down

record drag_state =
  startY :: "real option"
  currentY :: "real option"
  startTime :: "real option"
  isDragging :: bool
  direction :: "dir option"
  totalDistance :: real
  totalTime :: real

datatype transform = TransformNone | TranslateY real | TranslateYFull

datatype transition = TransitionNone | TransitionUnset | TransitionEase

record content_style =
  transform :: transform
  transition :: transition

record sheet =
  dragState :: drag_state
  overlayOpacity :: jsnum
  content :: "content_style option"
  isOpened :: bool
  setIsOpened_calls :: "bool list"
  timeouts :: "transform list"

text \<open>The object literal of the initial \<open>useState\<close> and of the reset in \<open>endDrag\<close>.\<close>

definition emptyDrag :: drag_state where
  "emptyDrag =
     \<lparr>startY = None, currentY = None, startTime = None, isDragging = False,
      direction = None, totalDistance = 0, totalTime = 0\<rparr>"

text \<open>A mounted sheet before any event: opacity \<open>useState(0)\<close>, no inline style.\<close>

definition initialSheet :: "bool \<Rightarrow> sheet" where
  "initialSheet opened =
     \<lparr>dragState = emptyDrag, overlayOpacity = Fin 0,
      content = Some \<lparr>transform = TransformNone, transition = TransitionNone\<rparr>,
      isOpened = opened, setIsOpened_calls = [], timeouts = []\<rparr>"

definition startDrag :: "real \<Rightarrow> real \<Rightarrow> sheet \<Rightarrow> sheet" where
  "startDrag now y s =
     s\<lparr>dragState :=
         \<lparr>startY = Some y, currentY = None, startTime = Some now, isDragging = True,
          direction = None, totalDistance = 0, totalTime = 0\<rparr>,
       content := map_option (\<lambda>c. c\<lparr>transition := TransitionUnset\<rparr>) (content s)\<rparr>"

text \<open>The values \<open>dragMove\<close> binds with \<open>const\<close>, as functions of the drag distance.\<close>

definition adjustedDragDistance :: "real \<Rightarrow> real \<Rightarrow> real" where
  "adjustedDragDistance innerHeight dragDistance =
     (let resistance = 0.1;
          maxUpwardDrag = innerHeight * 0.01
      in if dragDistance > 0 then dragDistance
         else max (- maxUpwardDrag) (dragDistance * resistance))"

definition opacity :: "real \<Rightarrow> real \<Rightarrow> jsnum" where
  "opacity innerHeight dragDistance =
     (let maxDragDistance = innerHeight * 0.5
      in if dragDistance > 0
         then js_max (Fin 0) (js_sub (Fin 1) (js_div \<bar>dragDistance\<bar> maxDragDistance))
         else Fin 1)"

definition dragMove :: "real \<Rightarrow> real \<Rightarrow> real \<Rightarrow> sheet \<Rightarrow> sheet" where
  "dragMove innerHeight now y s =
     (let prev = dragState s in
      if \<not> isDragging prev \<or> startY prev = None then s
      else
        let dragDistance = y - or_else (startY prev) 0;
            dir = (if dragDistance > 0 then Down else Up)
        in s\<lparr>dragState :=
               prev\<lparr>currentY := Some y,
                    direction := Some dir,
                    totalDistance := totalDistance prev + \<bar>y - or_else (currentY prev) y\<bar>,
                    totalTime := round_double ((now - or_else (startTime prev) now) / 1000)\<rparr>,
             overlayOpacity := opacity innerHeight dragDistance,
             content :=
               map_option
                 (\<lambda>c. c\<lparr>transform := TranslateY (adjustedDragDistance innerHeight dragDistance)\<rparr>)
                 (content s)\<rparr>)"

text \<open>
  The release. \<open>velocity\<close> is the unguarded quotient of the source, rounded. The three-way
  \<open>if\<close> of \<open>endDrag\<close> is named \<open>release_decision\<close>; each branch re-enables the
  transition and defers a transform when the content element is there (\<open>animate\<close>),
  and only the first two call \<open>setIsOpened\<close>. The reset of the drag state and of the
  opacity follows the \<open>if\<close>.
\<close>

datatype decision = Close | Reopen | SnapBack

definition velocity :: "drag_state \<Rightarrow> jsnum" where
  "velocity d = js_round (js_div (totalDistance d) (totalTime d))"

definition release_decision :: "real \<Rightarrow> real \<Rightarrow> real \<Rightarrow> drag_state \<Rightarrow> decision" where
  "release_decision screenHeight sy cy d =
     (let dragDistance = cy - sy;
          threshold = screenHeight / 2;
          fastCloseThreshold = 500
      in if (dragDistance > threshold \<or> js_gt (velocity d) (Fin fastCloseThreshold))
            \<and> direction d = Some Down
         then Close
         else if direction d = Some Up \<and> dragDistance < threshold
                 \<and> js_gt (velocity d) (Fin fastCloseThreshold)
         then Reopen
         else SnapBack)"

definition animate :: "transform \<Rightarrow> sheet \<Rightarrow> sheet" where
  "animate t s =
     (case content s of
        None \<Rightarrow> s
      | Some c \<Rightarrow>
          s\<lparr>content := Some (c\<lparr>transition := TransitionEase\<rparr>),
            timeouts := timeouts s @ [t]\<rparr>)"

definition setIsOpened :: "bool \<Rightarrow> sheet \<Rightarrow> sheet" where
  "setIsOpened b s = s\<lparr>isOpened := b, setIsOpened_calls := setIsOpened_calls s @ [b]\<rparr>"

definition endDrag :: "real \<Rightarrow> sheet \<Rightarrow> sheet" where
  "endDrag screenHeight s =
     (let d = dragState s in
      if \<not> isDragging d then s
      else
        (case startY d of None \<Rightarrow> s | Some sy \<Rightarrow>
        (case currentY d of None \<Rightarrow> s | Some cy \<Rightarrow>
        (case startTime d of None \<Rightarrow> s | Some st \<Rightarrow>
          (let s1 =
             (case release_decision screenHeight sy cy d of
                Close \<Rightarrow> animate TranslateYFull (setIsOpened False s)
              | Reopen \<Rightarrow> animate TransformNone (setIsOpened True s)
              | SnapBack \<Rightarrow> animate TransformNone s)
           in s1\<lparr>dragState := emptyDrag, overlayOpacity := Fin 1\<rparr>)))))"

text \<open>A run of move events, each with its coordinate and clock reading.\<close>

fun dragMoves :: "real \<Rightarrow> (real \<times> real) list \<Rightarrow> sheet \<Rightarrow> sheet" where
  "dragMoves innerHeight [] s = s"
| "dragMoves innerHeight ((y, now) # es) s = dragMoves innerHeight es (dragMove innerHeight now y s)"

text \<open>The sum of the absolute differences of consecutive samples.\<close>

fun abs_deltas :: "real list \<Rightarrow> real" where
  "abs_deltas (p # q # ps) = \<bar>q - p\<bar> + abs_deltas (q # ps)"
| "abs_deltas _ = 0"

section \<open>The throttle utility\<close>

text \<open>
  \<open>throttle(callback, delay)\<close> returns a closure over \<open>delay\<close> and the variable
  \<open>lastCall\<close>, initially \<open>0\<close>. A call of the closure reads the clock
  (\<open>new Date().getTime()\<close>, a parameter here) and, when \<open>now - lastCall >= delay\<close>,
  stores the reading and runs the callback. \<open>invoked\<close> logs the runs of the callback
  with the clock reading and the arguments of each.
\<close>

record 'a throttled =
  delay :: real
  lastCall :: real
  invoked :: "(real \<times> 'a) list"

definition throttle :: "real \<Rightarrow> 'a throttled" where
  "throttle d = \<lparr>delay = d, lastCall = 0, invoked = []\<rparr>"

definition call :: "real \<Rightarrow> 'a \<Rightarrow> 'a throttled \<Rightarrow> 'a throttled" where
  "call now args w =
     (if now - lastCall w \<ge> delay w
      then w\<lparr>lastCall := now, invoked := invoked w @ [(now, args)]\<rparr>
      else w)"

fun calls :: "(real \<times> 'a) list \<Rightarrow> 'a throttled \<Rightarrow> 'a throttled" where
  "calls [] w = w"
| "calls ((now, args) # cs) w = calls cs (call now args w)"

text \<open>The clock reading of the latest run of the callback, \<open>0\<close> before any run.\<close>

definition lastInvocation :: "'a throttled \<Rightarrow> real" where
  "lastInvocation w = (case invoked w of [] \<Rightarrow> 0 | _ \<Rightarrow> fst (last (invoked w)))"

section \<open>The portal container\<close>

text \<open>
  The document, as far as \<open>createDiv\<close> looks at it: the elements attached to it, in
  tree order, each a node identity with its \<open>id\<close> and \<open>className\<close>. The document has
  a body, and \<open>document.body.appendChild\<close> puts the new element last.
  \<open>querySelector('#iosify')\<close> yields the first attached element with that id, or
  \<open>null\<close>. \<open>createElement\<close> yields a node that is not in the document. The class name
  \<open>styles.iosify\<close> comes from the style sheet module and is a parameter. The
  \<open>console.log\<close> of the source is not modelled.
\<close>

type_synonym node = nat

record element =
  elem_id :: string
  className :: string

type_synonym document = "(node \<times> element) list"

definition querySelector_id :: "string \<Rightarrow> document \<Rightarrow> node option" where
  "querySelector_id i doc = map_option fst (find (\<lambda>(n, e). elem_id e = i) doc)"

definition createElement :: "document \<Rightarrow> node" where
  "createElement doc = Suc (foldr max (map fst doc) 0)"

definition createDiv :: "string \<Rightarrow> document \<Rightarrow> node \<times> document" where
  "createDiv iosify doc =
     (case querySelector_id ''iosify'' doc of
        Some found \<Rightarrow> (found, doc)
      | None \<Rightarrow>
          (let created = createElement doc
           in (created, doc @ [(created, \<lparr>elem_id = ''iosify'', className = iosify\<rparr>)])))"

text \<open>The attached elements that carry the container's id.\<close>

definition containers :: "document \<Rightarrow> (node \<times> element) list" where
  "containers doc = filter (\<lambda>(n, e). elem_id e = ''iosify'') doc"

section \<open>Sample gestures and the specification's distance\<close>

text \<open>
  Concrete sessions on a viewport 700 high: a quick downward flick (press at 100,
  samples 40 ms apart), two samples taken within the clock tick of the press, two
  flicks of exactly 500 pixels per second (9 pixels in 18 ms, 13 pixels in 26 ms), and
  an upward drag whose second sample is at coordinate 0.
\<close>

definition flickDown :: sheet where
  "flickDown = dragMoves 700 [(150, 1040), (220, 1080)] (startDrag 1000 100 (initialSheet True))"

definition sameTickDrag :: sheet where
  "sameTickDrag = dragMoves 700 [(105, 1000), (110, 1000)] (startDrag 1000 100 (initialSheet True))"

definition boundaryFlick :: sheet where
  "boundaryFlick = dragMoves 700 [(101, 1006), (110, 1018)] (startDrag 1000 100 (initialSheet True))"

definition tieFlick :: sheet where
  "tieFlick = dragMoves 700 [(101, 1010), (114, 1026)] (startDrag 1000 100 (initialSheet True))"

definition throughZero :: sheet where
  "throughZero = dragMoves 700 [(40, 1010), (0, 1020)] (startDrag 1000 50 (initialSheet True))"

text \<open>
  The accumulated distance as the specification words it, for comparison with the
  source: every sample contributes the magnitude of its step, and the first sample
  after the press contributes its full step from the start position.
\<close>

definition spec_accumulatedDistance :: "real \<Rightarrow> real list \<Rightarrow> real" where
  "spec_accumulatedDistance start ps = abs_deltas (start # ps)"

section \<open>Handlers on an active session\<close>

lemma animate_calls: "setIsOpened_calls (animate t s) = setIsOpened_calls s"
  by (simp add: animate_def split: option.splits)

lemma animate_isOpened: "isOpened (animate t s) = isOpened s"
  by (simp add: animate_def split: option.splits)

lemma dragMove_active:
  assumes "isDragging (dragState s)" "startY (dragState s) = Some sy"
  shows "dragMove vh now y s =
     s\<lparr>dragState :=
         (dragState s)\<lparr>currentY := Some y,
              direction := Some (if y - sy > 0 then Down else Up),
              totalDistance := totalDistance (dragState s) + \<bar>y - or_else (currentY (dragState s)) y\<bar>,
              totalTime := round_double ((now - or_else (startTime (dragState s)) now) / 1000)\<rparr>,
       overlayOpacity := opacity vh (y - sy),
       content := map_option (\<lambda>c. c\<lparr>transform := TranslateY (adjustedDragDistance vh (y - sy))\<rparr>)
                 (content s)\<rparr>"
  using assms by (simp add: dragMove_def Let_def)

lemma endDrag_active:
  assumes "isDragging (dragState s)" "startY (dragState s) = Some sy"
    "currentY (dragState s) = Some cy" "startTime (dragState s) = Some st"
  shows "endDrag vh s =
     (case release_decision vh sy cy (dragState s) of
        Close \<Rightarrow> animate TranslateYFull (setIsOpened False s)
      | Reopen \<Rightarrow> animate TransformNone (setIsOpened True s)
      | SnapBack \<Rightarrow> animate TransformNone s)\<lparr>dragState := emptyDrag, overlayOpacity := Fin 1\<rparr>"
  using assms by (simp add: endDrag_def Let_def)

lemma endDrag_calls:
  assumes "isDragging (dragState s)" "startY (dragState s) = Some sy"
    "currentY (dragState s) = Some cy" "startTime (dragState s) = Some st"
  shows "setIsOpened_calls (endDrag vh s) = setIsOpened_calls s @
     (case release_decision vh sy cy (dragState s) of
        Close \<Rightarrow> [False] | Reopen \<Rightarrow> [True] | SnapBack \<Rightarrow> [])"
  by (simp add: endDrag_active[OF assms] animate_calls setIsOpened_def split: decision.splits)

lemma endDrag_isOpened:
  assumes "isDragging (dragState s)" "startY (dragState s) = Some sy"
    "currentY (dragState s) = Some cy" "startTime (dragState s) = Some st"
  shows "isOpened (endDrag vh s) =
     (case release_decision vh sy cy (dragState s) of
        Close \<Rightarrow> False | Reopen \<Rightarrow> True | SnapBack \<Rightarrow> isOpened s)"
  by (simp add: endDrag_active[OF assms] animate_isOpened setIsOpened_def split: decision.splits)

lemma endDrag_no_move: "currentY (dragState s) = None \<Longrightarrow> endDrag vh s = s"
  by (simp add: endDrag_def Let_def split: option.splits)

lemma velocity_finite:
  "totalTime d \<noteq> 0 \<Longrightarrow> velocity d = js_number (totalDistance d / totalTime d)"
  by (simp add: velocity_def js_div_def)

lemma round_double_zero: "round_double 0 = 0"
  by (simp add: round_double_def)

lemma velocity_zero_time:
  "totalTime d = 0 \<Longrightarrow>
   velocity d = (if 0 < totalDistance d then PInf else if totalDistance d < 0 then NInf else NaN)"
  by (simp add: velocity_def js_div_def)

lemma release_decision_Close:
  "(release_decision vh sy cy d = Close) =
   (direction d = Some Down \<and> (cy - sy > vh / 2 \<or> js_gt (velocity d) (Fin 500)))"
  by (auto simp: release_decision_def Let_def)

lemma release_decision_Reopen:
  "(release_decision vh sy cy d = Reopen) =
   (direction d = Some Up \<and> cy - sy < vh / 2 \<and> js_gt (velocity d) (Fin 500))"
  by (auto simp: release_decision_def Let_def)

lemma release_decision_SnapBack:
  "(release_decision vh sy cy d = SnapBack) =
   (\<not> (direction d = Some Down \<and> (cy - sy > vh / 2 \<or> js_gt (velocity d) (Fin 500))) \<and>
    \<not> (direction d = Some Up \<and> cy - sy < vh / 2 \<and> js_gt (velocity d) (Fin 500)))"
  by (auto simp: release_decision_def Let_def)

lemma flickDown_state:
  "dragState flickDown =
     \<lparr>startY = Some 100, currentY = Some 220, startTime = Some 1000, isDragging = True,
      direction = Some Down, totalDistance = 70, totalTime = round_double (80 / 1000)\<rparr>"
  by (simp add: flickDown_def startDrag_def dragMove_def initialSheet_def emptyDrag_def Let_def)

lemma flickDown_calls: "setIsOpened_calls flickDown = []"
  by (simp add: flickDown_def startDrag_def dragMove_def initialSheet_def emptyDrag_def Let_def)

lemma sameTickDrag_state:
  "dragState sameTickDrag =
     \<lparr>startY = Some 100, currentY = Some 110, startTime = Some 1000, isDragging = True,
      direction = Some Down, totalDistance = 5, totalTime = 0\<rparr>"
  by (simp add: sameTickDrag_def startDrag_def dragMove_def initialSheet_def emptyDrag_def Let_def
      round_double_zero)

lemma sameTickDrag_calls: "setIsOpened_calls sameTickDrag = []"
  by (simp add: sameTickDrag_def startDrag_def dragMove_def initialSheet_def emptyDrag_def Let_def)

lemma throughZero_state:
  "dragState throughZero =
     \<lparr>startY = Some 50, currentY = Some 0, startTime = Some 1000, isDragging = True,
      direction = Some Up, totalDistance = 40, totalTime = round_double (20 / 1000)\<rparr>"
  by (simp add: throughZero_def startDrag_def dragMove_def initialSheet_def emptyDrag_def Let_def)

lemma boundaryFlick_state:
  "dragState boundaryFlick =
     \<lparr>startY = Some 100, currentY = Some 110, startTime = Some 1000, isDragging = True,
      direction = Some Down, totalDistance = 9, totalTime = round_double (18 / 1000)\<rparr>"
  by (simp add: boundaryFlick_def startDrag_def dragMove_def initialSheet_def emptyDrag_def Let_def)

lemma boundaryFlick_calls: "setIsOpened_calls boundaryFlick = []"
  by (simp add: boundaryFlick_def startDrag_def dragMove_def initialSheet_def emptyDrag_def Let_def)

lemma tieFlick_state:
  "dragState tieFlick =
     \<lparr>startY = Some 100, currentY = Some 114, startTime = Some 1000, isDragging = True,
      direction = Some Down, totalDistance = 13, totalTime = round_double (26 / 1000)\<rparr>"
  by (simp add: tieFlick_def startDrag_def dragMove_def initialSheet_def emptyDrag_def Let_def)

lemma tieFlick_calls: "setIsOpened_calls tieFlick = []"
  by (simp add: tieFlick_def startDrag_def dragMove_def initialSheet_def emptyDrag_def Let_def)

text \<open>The rounding at known doubles: one tenth, and two numbers it leaves as they are.\<close>

lemma round_double_samples:
  "round_double (1 / 10) = 3602879701896397 / 2 ^ 55 \<and>
   round_double 500 = 500 \<and> round_double (- 3 / 8) = - 3 / 8"
  by code_simp

lemma boundaryFlick_velocity:
  "js_round (js_div 9 (round_double (18 / 1000))) = Fin (500 + 1 / 2 ^ 44)"
  by code_simp

lemma tieFlick_velocity:
  "js_round (js_div 13 (round_double (26 / 1000))) = Fin 500"
  by code_simp

section \<open>The release decision\<close>

text \<open>
  C1. On the release of an active session (\<open>startY\<close>, \<open>currentY\<close> and \<open>startTime\<close>
  present), with net displacement \<open>cy - sy\<close>, threshold \<open>vh / 2\<close> and the velocity
  \<open>totalDistance / totalTime\<close>: \<open>endDrag\<close> calls \<open>setIsOpened(false)\<close> exactly when
  the direction is down and the displacement exceeds the threshold or the velocity
  exceeds 500; it calls \<open>setIsOpened(true)\<close> exactly when the direction is up, the
  displacement is below the threshold and the velocity exceeds 500; and in exactly the
  remaining cases it makes no call and leaves the visibility flag as it was. The
  velocity is the quotient as JavaScript computes it: when the elapsed time is not 0,
  the real quotient rounded to a double.
\<close>

theorem endDrag_decision:
  assumes "isDragging (dragState s)" "startY (dragState s) = Some sy"
    "currentY (dragState s) = Some cy" "startTime (dragState s) = Some st"
  shows "((setIsOpened_calls (endDrag vh s) = setIsOpened_calls s @ [False]) =
           (direction (dragState s) = Some Down \<and>
            (cy - sy > vh / 2 \<or> js_gt (velocity (dragState s)) (Fin 500)))) \<and>
         ((setIsOpened_calls (endDrag vh s) = setIsOpened_calls s @ [True]) =
           (direction (dragState s) = Some Up \<and> cy - sy < vh / 2 \<and>
            js_gt (velocity (dragState s)) (Fin 500))) \<and>
         ((setIsOpened_calls (endDrag vh s) = setIsOpened_calls s \<and>
           isOpened (endDrag vh s) = isOpened s) =
           (\<not> (direction (dragState s) = Some Down \<and>
               (cy - sy > vh / 2 \<or> js_gt (velocity (dragState s)) (Fin 500))) \<and>
            \<not> (direction (dragState s) = Some Up \<and> cy - sy < vh / 2 \<and>
               js_gt (velocity (dragState s)) (Fin 500)))) \<and>
         (totalTime (dragState s) \<noteq> 0 \<longrightarrow>
            velocity (dragState s) =
              js_number (totalDistance (dragState s) / totalTime (dragState s)))"
proof -
  let ?d = "dragState s"
  note calls = endDrag_calls[OF assms, of vh] and opened = endDrag_isOpened[OF assms, of vh]
  have c: "(setIsOpened_calls (endDrag vh s) = setIsOpened_calls s @ [False]) =
           (release_decision vh sy cy ?d = Close)"
    by (simp add: calls split: decision.splits)
  have r: "(setIsOpened_calls (endDrag vh s) = setIsOpened_calls s @ [True]) =
           (release_decision vh sy cy ?d = Reopen)"
    by (simp add: calls split: decision.splits)
  have b: "(setIsOpened_calls (endDrag vh s) = setIsOpened_calls s \<and>
            isOpened (endDrag vh s) = isOpened s) = (release_decision vh sy cy ?d = SnapBack)"
    by (simp add: calls opened split: decision.splits)
  show ?thesis
    unfolding c r b
    by (simp add: release_decision_Close release_decision_Reopen release_decision_SnapBack
        velocity_finite)
qed

text \<open>
  Two flicks of exactly 500 pixels per second. For 9 pixels in 18 ms the stored time
  is just below 0.018 and the rounded quotient is the double above 500: the sheet
  closes. For 13 pixels in 26 ms the quotient rounds to 500: no call is made.
\<close>

theorem endDrag_decision_witness:
  "setIsOpened_calls (endDrag 700 boundaryFlick) = [False] \<and>
   velocity (dragState boundaryFlick) = Fin (500 + 1 / 2 ^ 44) \<and>
   setIsOpened_calls (endDrag 700 tieFlick) = [] \<and>
   velocity (dragState tieFlick) = Fin 500"
proof -
  have h: "isDragging (dragState boundaryFlick)" "startY (dragState boundaryFlick) = Some 100"
    "currentY (dragState boundaryFlick) = Some 110" "startTime (dragState boundaryFlick) = Some 1000"
    by (simp_all add: boundaryFlick_state)
  have k: "isDragging (dragState tieFlick)" "startY (dragState tieFlick) = Some 100"
    "currentY (dragState tieFlick) = Some 114" "startTime (dragState tieFlick) = Some 1000"
    by (simp_all add: tieFlick_state)
  have v: "velocity (dragState boundaryFlick) = Fin (500 + 1 / 2 ^ 44)"
    unfolding velocity_def boundaryFlick_state using boundaryFlick_velocity by simp
  have w: "velocity (dragState tieFlick) = Fin 500"
    unfolding velocity_def tieFlick_state using tieFlick_velocity by simp
  have d: "direction (dragState boundaryFlick) = Some Down" "direction (dragState tieFlick) = Some Down"
    by (simp_all add: boundaryFlick_state tieFlick_state)
  show ?thesis
    using endDrag_decision[OF h, of 700] endDrag_decision[OF k, of 700]
    by (simp add: v w d boundaryFlick_calls tieFlick_calls)
qed

text \<open>
  C2, as stated, fails. Two samples taken within the clock tick of the press leave an
  active session with elapsed time 0 and accumulated distance 5. The displacement 10
  is below the threshold 350, so a velocity of 0 would snap back; the quotient is
  \<open>Infinity\<close>, the comparison with 500 succeeds and the sheet closes.
\<close>

theorem zero_time_release_counterexample:
  "isDragging (dragState sameTickDrag) \<and> startY (dragState sameTickDrag) = Some 100 \<and>
   currentY (dragState sameTickDrag) = Some 110 \<and>
   startTime (dragState sameTickDrag) = Some 1000 \<and>
   totalTime (dragState sameTickDrag) = 0 \<and>
   \<not> ((110::real) - 100 > 700 / 2) \<and>
   velocity (dragState sameTickDrag) = PInf \<and>
   release_decision 700 100 110 (dragState sameTickDrag) = Close \<and>
   release_decision 700 100 110 (dragState sameTickDrag) \<noteq> SnapBack \<and>
   setIsOpened_calls (endDrag 700 sameTickDrag) = [False]"
proof -
  have h: "isDragging (dragState sameTickDrag)" "startY (dragState sameTickDrag) = Some 100"
    "currentY (dragState sameTickDrag) = Some 110" "startTime (dragState sameTickDrag) = Some 1000"
    by (simp_all add: sameTickDrag_state)
  have v: "velocity (dragState sameTickDrag) = PInf"
    by (simp add: velocity_zero_time sameTickDrag_state)
  have d: "release_decision 700 100 110 (dragState sameTickDrag) = Close"
    by (simp add: release_decision_Close v) (simp add: sameTickDrag_state)
  show ?thesis
    using h v d by (simp add: endDrag_calls[OF h] sameTickDrag_calls sameTickDrag_state)
qed

text \<open>
  C2, amended. On the release of an active session whose elapsed time is 0 the
  division is not guarded: the velocity is \<open>NaN\<close> when the accumulated distance is 0
  and \<open>Infinity\<close> when it is positive. With distance 0 no comparison with the velocity
  succeeds, as if the velocity were 0: the sheet closes exactly when the direction is
  down and the displacement exceeds the threshold, and snaps back otherwise. With a
  positive distance the comparison succeeds: the sheet closes when the direction is
  down, reopens when the direction is up and the displacement is below the threshold,
  and snaps back otherwise.
\<close>

theorem zero_time_release:
  assumes "isDragging (dragState s)" "startY (dragState s) = Some sy"
    "currentY (dragState s) = Some cy" "startTime (dragState s) = Some st"
    and "totalTime (dragState s) = 0"
  shows "velocity (dragState s) =
           (if 0 < totalDistance (dragState s) then PInf
            else if totalDistance (dragState s) < 0 then NInf else NaN) \<and>
         release_decision vh sy cy (dragState s) =
           (if direction (dragState s) = Some Down \<and>
               (cy - sy > vh / 2 \<or> 0 < totalDistance (dragState s)) then Close
            else if direction (dragState s) = Some Up \<and> cy - sy < vh / 2 \<and>
               0 < totalDistance (dragState s) then Reopen
            else SnapBack) \<and>
         setIsOpened_calls (endDrag vh s) = setIsOpened_calls s @
           (if direction (dragState s) = Some Down \<and>
               (cy - sy > vh / 2 \<or> 0 < totalDistance (dragState s)) then [False]
            else if direction (dragState s) = Some Up \<and> cy - sy < vh / 2 \<and>
               0 < totalDistance (dragState s) then [True]
            else [])"
proof -
  let ?d = "dragState s"
  have v: "velocity ?d =
      (if 0 < totalDistance ?d then PInf else if totalDistance ?d < 0 then NInf else NaN)"
    using assms(5) by (rule velocity_zero_time)
  have g: "js_gt (velocity ?d) (Fin 500) = (0 < totalDistance ?d)"
    by (simp add: v)
  have r: "release_decision vh sy cy ?d =
           (if direction ?d = Some Down \<and> (cy - sy > vh / 2 \<or> 0 < totalDistance ?d) then Close
            else if direction ?d = Some Up \<and> cy - sy < vh / 2 \<and> 0 < totalDistance ?d then Reopen
            else SnapBack)"
    by (auto simp: release_decision_def Let_def g)
  show ?thesis
    by (simp add: endDrag_calls[OF assms(1-4)] r) (simp add: v)
qed

theorem zero_time_release_witness:
  "velocity (dragState sameTickDrag) = PInf \<and>
   release_decision 700 100 110 (dragState sameTickDrag) = Close \<and>
   setIsOpened_calls (endDrag 700 sameTickDrag) = [False]"
proof -
  have h: "isDragging (dragState sameTickDrag)" "startY (dragState sameTickDrag) = Some 100"
    "currentY (dragState sameTickDrag) = Some 110" "startTime (dragState sameTickDrag) = Some 1000"
    "totalTime (dragState sameTickDrag) = 0"
    by (simp_all add: sameTickDrag_state)
  show ?thesis
    using zero_time_release[OF h, of 700]
    by (simp add: sameTickDrag_calls) (simp add: sameTickDrag_state)
qed

text \<open>
  C4. After the release of an active session, on whichever branch, the drag state is
  the empty one (positions and start time absent, not dragging, no direction, distance
  and time 0) and the overlay opacity is 1.
\<close>

theorem endDrag_resets:
  assumes "isDragging (dragState s)" "startY (dragState s) = Some sy"
    "currentY (dragState s) = Some cy" "startTime (dragState s) = Some st"
  shows "dragState (endDrag vh s) =
           \<lparr>startY = None, currentY = None, startTime = None, isDragging = False,
            direction = None, totalDistance = 0, totalTime = 0\<rparr> \<and>
         overlayOpacity (endDrag vh s) = Fin 1"
  by (simp add: endDrag_active[OF assms] emptyDrag_def)

theorem endDrag_resets_witness:
  "dragState (endDrag 700 flickDown) =
     \<lparr>startY = None, currentY = None, startTime = None, isDragging = False,
      direction = None, totalDistance = 0, totalTime = 0\<rparr> \<and>
   overlayOpacity (endDrag 700 flickDown) = Fin 1"
proof -
  have h: "isDragging (dragState flickDown)" "startY (dragState flickDown) = Some 100"
    "currentY (dragState flickDown) = Some 220" "startTime (dragState flickDown) = Some 1000"
    by (simp_all add: flickDown_state)
  show ?thesis
    by (rule endDrag_resets[OF h])
qed

text \<open>
  C9. A release that finds \<open>currentY\<close> absent changes nothing. After a press followed
  at once by a release the session is still active with its start position and start
  time, it is not the empty state, and the opacity is what it was before the press. A
  later move event still updates that session, and the next press overwrites it.
\<close>

theorem release_without_move:
  "(isDragging (dragState s) \<and> currentY (dragState s) = None \<longrightarrow> endDrag vh s = s) \<and>
   endDrag vh (startDrag now y s) = startDrag now y s \<and>
   isDragging (dragState (endDrag vh (startDrag now y s))) \<and>
   startY (dragState (endDrag vh (startDrag now y s))) = Some y \<and>
   startTime (dragState (endDrag vh (startDrag now y s))) = Some now \<and>
   dragState (endDrag vh (startDrag now y s)) \<noteq> emptyDrag \<and>
   overlayOpacity (endDrag vh (startDrag now y s)) = overlayOpacity s \<and>
   currentY (dragState (dragMove vh' now' y' (endDrag vh (startDrag now y s)))) = Some y' \<and>
   dragState (dragMove vh' now' y' (endDrag vh (startDrag now y s)))
     \<noteq> dragState (endDrag vh (startDrag now y s)) \<and>
   dragState (startDrag now2 y2 (dragMove vh' now' y' (endDrag vh (startDrag now y s)))) =
     \<lparr>startY = Some y2, currentY = None, startTime = Some now2, isDragging = True,
      direction = None, totalDistance = 0, totalTime = 0\<rparr>"
proof -
  have e: "endDrag vh (startDrag now y s) = startDrag now y s"
    by (rule endDrag_no_move) (simp add: startDrag_def)
  have m: "currentY (dragState (dragMove vh' now' y' (startDrag now y s))) = Some y'"
    by (simp add: dragMove_def startDrag_def Let_def)
  have n: "currentY (dragState (startDrag now y s)) = None"
    by (simp add: startDrag_def)
  have "dragState (dragMove vh' now' y' (startDrag now y s)) \<noteq> dragState (startDrag now y s)"
    using m n by auto
  then show ?thesis
    unfolding e using m by (simp add: endDrag_no_move) (simp add: startDrag_def emptyDrag_def)
qed

theorem release_without_move_witness:
  "isDragging (dragState (startDrag 1000 100 (initialSheet True))) \<and>
   currentY (dragState (startDrag 1000 100 (initialSheet True))) = None \<and>
   endDrag 700 (startDrag 1000 100 (initialSheet True)) = startDrag 1000 100 (initialSheet True) \<and>
   overlayOpacity (endDrag 700 (startDrag 1000 100 (initialSheet True))) = Fin 0"
proof -
  have h: "isDragging (dragState (startDrag 1000 100 (initialSheet True))) \<and>
    currentY (dragState (startDrag 1000 100 (initialSheet True))) = None"
    by (simp add: startDrag_def)
  have o: "overlayOpacity (startDrag 1000 100 (initialSheet True)) = Fin 0"
    by (simp add: startDrag_def initialSheet_def)
  show ?thesis
    using h o release_without_move[where s = "startDrag 1000 100 (initialSheet True)" and vh = 700]
    by simp
qed

section \<open>The accumulated distance\<close>

lemma dragMoves_totalDistance:
  assumes "isDragging (dragState s)" "startY (dragState s) = Some sy"
    "currentY (dragState s) = Some c" "c \<noteq> 0"
    "\<forall>p \<in> set (butlast (map fst es)). p \<noteq> 0"
  shows "totalDistance (dragState (dragMoves vh es s)) =
         totalDistance (dragState s) + abs_deltas (c # map fst es)"
  using assms
proof (induction es arbitrary: s c)
  case Nil
  then show ?case by simp
next
  case (Cons e es)
  obtain y now where e: "e = (y, now)" by (cases e)
  let ?s = "dragMove vh now y s"
  have st: "isDragging (dragState ?s)" "startY (dragState ?s) = Some sy"
    "currentY (dragState ?s) = Some y"
    "totalDistance (dragState ?s) = totalDistance (dragState s) + \<bar>y - c\<bar>"
    using Cons.prems by (simp_all add: dragMove_active[OF Cons.prems(1,2)])
  show ?case
  proof (cases es)
    case Nil
    then show ?thesis by (simp add: e st)
  next
    case (Cons e' es')
    with Cons.prems(5) have y: "y \<noteq> 0" and rest: "\<forall>p \<in> set (butlast (map fst es)). p \<noteq> 0"
      by (simp_all add: e)
    have "totalDistance (dragState (dragMoves vh es ?s)) =
          totalDistance (dragState ?s) + abs_deltas (y # map fst es)"
      by (rule Cons.IH[OF st(1-3) y rest])
    then show ?thesis by (simp add: e st)
  qed
qed

text \<open>
  C3, as stated, fails. After a press at 100 and one move to 150 the accumulated
  distance is 0: the first sample contributes nothing, where the specification's rule
  gives it its full step of 50.
\<close>

theorem accumulated_distance_counterexample:
  "totalDistance (dragState (dragMoves 700 [(150, 1010)] (startDrag 1000 100 (initialSheet True)))) = 0 \<and>
   spec_accumulatedDistance 100 [150] = 50 \<and>
   totalDistance (dragState (dragMoves 700 [(150, 1010)] (startDrag 1000 100 (initialSheet True))))
     \<noteq> spec_accumulatedDistance 100 [150]"
  by (simp add: spec_accumulatedDistance_def dragMove_def startDrag_def Let_def)

text \<open>
  C3, amended. For a session started at any position and any run of move events at
  positions \<open>p1 .. pN\<close> of which none before the last is the coordinate 0, the
  accumulated distance after the run is the sum of \<open>\<bar>p(i+1) - p(i)\<bar>\<close> over the
  consecutive samples, whatever the directions of the steps; the first sample after the
  press contributes 0.
\<close>

theorem accumulated_distance:
  assumes "\<forall>p \<in> set (butlast (map fst es)). p \<noteq> 0"
  shows "totalDistance (dragState (dragMoves vh es (startDrag now y0 s))) = abs_deltas (map fst es)"
proof (cases es)
  case Nil
  then show ?thesis by (simp add: startDrag_def)
next
  case (Cons e es')
  obtain y t where e: "e = (y, t)" by (cases e)
  let ?p = "startDrag now y0 s"
  let ?s = "dragMove vh t y ?p"
  have p: "isDragging (dragState ?p)" "startY (dragState ?p) = Some y0"
    by (simp_all add: startDrag_def)
  have st: "isDragging (dragState ?s)" "startY (dragState ?s) = Some y0"
    "currentY (dragState ?s) = Some y" "totalDistance (dragState ?s) = 0"
    by (simp_all add: dragMove_active[OF p]) (simp_all add: startDrag_def)
  show ?thesis
  proof (cases es')
    case Nil
    then show ?thesis by (simp add: Cons e st)
  next
    case (Cons e'' es'')
    with assms \<open>es = e # es'\<close> have y: "y \<noteq> 0"
      and rest: "\<forall>p \<in> set (butlast (map fst es')). p \<noteq> 0"
      by (simp_all add: e)
    have "totalDistance (dragState (dragMoves vh es' ?s)) =
          totalDistance (dragState ?s) + abs_deltas (y # map fst es')"
      by (rule dragMoves_totalDistance[OF st(1-3) y rest])
    then show ?thesis by (simp add: \<open>es = e # es'\<close> e st Cons)
  qed
qed

text \<open>Down 20, up 25: the accumulated distance is 45 while the net displacement is 5.\<close>

theorem accumulated_distance_witness:
  "totalDistance (dragState (dragMoves 700 [(110, 1010), (130, 1020), (105, 1030)]
      (startDrag 1000 100 (initialSheet True)))) = 45"
proof -
  have h: "\<forall>p \<in> set (butlast (map fst [(110::real, 1010::real), (130, 1020), (105, 1030)])). p \<noteq> 0"
    by simp
  show ?thesis
    using accumulated_distance[OF h, of 700 1000 100 "initialSheet True"] by simp
qed

text \<open>
  C10. A move event of an active session whose recorded \<open>currentY\<close> is the coordinate
  0, or is absent (the first move after a press), adds nothing to the accumulated
  distance, whatever the new coordinate; the move is otherwise processed.
\<close>

theorem zero_coordinate_contributes_nothing:
  assumes "isDragging (dragState s)" "startY (dragState s) = Some sy"
    and "currentY (dragState s) = Some 0 \<or> currentY (dragState s) = None"
  shows "totalDistance (dragState (dragMove vh now y s)) = totalDistance (dragState s) \<and>
         currentY (dragState (dragMove vh now y s)) = Some y"
  using assms by (auto simp: dragMove_def Let_def)

theorem zero_coordinate_contributes_nothing_witness:
  "totalDistance (dragState (dragMove 700 1030 300 throughZero)) = 40 \<and>
   currentY (dragState (dragMove 700 1030 300 throughZero)) = Some 300"
proof -
  have h: "isDragging (dragState throughZero)" "startY (dragState throughZero) = Some 50"
    "currentY (dragState throughZero) = Some 0 \<or> currentY (dragState throughZero) = None"
    by (simp_all add: throughZero_state)
  show ?thesis
    using zero_coordinate_contributes_nothing[OF h, of 700 1030 300]
    by (simp add: throughZero_state)
qed

section \<open>Offset and opacity during a drag\<close>

text \<open>
  C5. A move event of an active session sets the content's transform to the offset
  computed from the net displacement \<open>y - sy\<close>. For a displacement \<open>d \<le> 0\<close> that
  offset is \<open>max (- 0.01 * vh) (0.1 * d)\<close>, so on a viewport of height \<open>vh \<ge> 0\<close> its
  magnitude is at most \<open>0.01 * vh\<close>, also for \<open>d = - 100000\<close>; for \<open>d > 0\<close> the offset
  is \<open>d\<close> itself.
\<close>

theorem upward_offset_clamped:
  assumes "isDragging (dragState s)" "startY (dragState s) = Some sy"
  shows "map_option transform (content (dragMove vh now y s)) =
           map_option (\<lambda>c. TranslateY (adjustedDragDistance vh (y - sy))) (content s) \<and>
         (d \<le> 0 \<longrightarrow> adjustedDragDistance vh d = max (- (0.01 * vh)) (0.1 * d)) \<and>
         (d \<le> 0 \<and> 0 \<le> vh \<longrightarrow> \<bar>adjustedDragDistance vh d\<bar> \<le> 0.01 * vh) \<and>
         (0 \<le> vh \<longrightarrow> \<bar>adjustedDragDistance vh (- 100000)\<bar> \<le> 0.01 * vh) \<and>
         (0 < d \<longrightarrow> adjustedDragDistance vh d = d)"
proof -
  have t: "map_option transform (content (dragMove vh now y s)) =
           map_option (\<lambda>c. TranslateY (adjustedDragDistance vh (y - sy))) (content s)"
    by (simp add: dragMove_active[OF assms] option.map_comp comp_def)
  have u: "adjustedDragDistance vh e = max (- (0.01 * vh)) (0.1 * e)" if "e \<le> 0" for e
    using that by (simp add: adjustedDragDistance_def Let_def mult.commute)
  have b: "\<bar>adjustedDragDistance vh e\<bar> \<le> 0.01 * vh" if "e \<le> 0" "0 \<le> vh" for e
    using that by (simp add: u max_def abs_if)
  have p: "adjustedDragDistance vh d = d" if "0 < d"
    using that by (simp add: adjustedDragDistance_def)
  show ?thesis
    using t u[of d] b[of d] b[of "- 100000"] p by simp
qed

theorem upward_offset_clamped_witness:
  "map_option transform (content (dragMove 700 1010 (-99900) (startDrag 1000 100 (initialSheet True))))
     = Some (TranslateY (- 7)) \<and>
   adjustedDragDistance 700 (- 100000) = - 7 \<and>
   adjustedDragDistance 700 (- 20) = - 2 \<and>
   adjustedDragDistance 700 250 = 250"
proof -
  have h: "isDragging (dragState (startDrag 1000 100 (initialSheet True)))"
    "startY (dragState (startDrag 1000 100 (initialSheet True))) = Some 100"
    by (simp_all add: startDrag_def)
  have c: "content (startDrag 1000 100 (initialSheet True)) =
     Some \<lparr>transform = TransformNone, transition = TransitionUnset\<rparr>"
    by (simp add: startDrag_def initialSheet_def)
  show ?thesis
    using upward_offset_clamped[OF h, of 700 1010 "-99900" "- 100000"]
      upward_offset_clamped[OF h, of 700 1010 "-99900" "- 20"]
      upward_offset_clamped[OF h, of 700 1010 "-99900" "250"]
    by (simp add: c)
qed

lemma opacity_down:
  assumes "0 < vh" "0 < d"
  shows "opacity vh d = Fin (max 0 (1 - d / (vh * 0.5)))"
  using assms by (simp add: opacity_def Let_def js_div_def)

lemma opacity_up: "d \<le> 0 \<Longrightarrow> opacity vh d = Fin 1"
  by (simp add: opacity_def Let_def)

lemma opacity_zero_height: "0 < d \<Longrightarrow> opacity 0 d = Fin 0"
  by (simp add: opacity_def Let_def js_div_def)

text \<open>
  C6. On a viewport of positive height the opacity set by a move event is a function
  of the net displacement \<open>d\<close> alone; it is a number between 0 and 1; it does not
  increase as \<open>d\<close> grows over the positive displacements; it is positive below
  \<open>0.5 * vh\<close>, 0 at \<open>0.5 * vh\<close> and 0 for every larger \<open>d\<close>; and it is exactly 1 for
  every \<open>d \<le> 0\<close>.
\<close>

theorem opacity_fades:
  assumes "0 < vh"
  shows "(\<forall>d. \<exists>r. opacity vh d = Fin r \<and> 0 \<le> r \<and> r \<le> 1) \<and>
         (\<forall>d d'. 0 < d \<longrightarrow> d \<le> d' \<longrightarrow> js_le (opacity vh d') (opacity vh d)) \<and>
         (\<forall>d. 0 < d \<longrightarrow> d < 0.5 * vh \<longrightarrow> (\<exists>r. opacity vh d = Fin r \<and> 0 < r)) \<and>
         opacity vh (0.5 * vh) = Fin 0 \<and>
         (\<forall>d. 0.5 * vh \<le> d \<longrightarrow> opacity vh d = Fin 0) \<and>
         (\<forall>d. d \<le> 0 \<longrightarrow> opacity vh d = Fin 1) \<and>
         (isDragging (dragState s) \<and> startY (dragState s) = Some sy \<longrightarrow>
            overlayOpacity (dragMove vh now y s) = opacity vh (y - sy))"
proof -
  have range: "\<exists>r. opacity vh d = Fin r \<and> 0 \<le> r \<and> r \<le> 1" for d
  proof (cases "0 < d")
    case True
    then have "0 \<le> d / (vh * 0.5)" using assms by simp
    then show ?thesis by (simp add: opacity_down[OF assms True])
  next
    case False
    then show ?thesis by (simp add: opacity_up)
  qed
  have mono: "js_le (opacity vh d') (opacity vh d)" if "0 < d" "d \<le> d'" for d d'
  proof -
    have "0 < d'" using that by simp
    moreover have "d / (vh * 0.5) \<le> d' / (vh * 0.5)"
      using that assms by (simp add: divide_right_mono)
    ultimately show ?thesis
      using that by (simp add: opacity_down[OF assms] max_def)
  qed
  have pos: "\<exists>r. opacity vh d = Fin r \<and> 0 < r" if "0 < d" "d < 0.5 * vh" for d
  proof -
    have "d / (vh * 0.5) < 1" using that assms by simp
    then show ?thesis by (simp add: opacity_down[OF assms that(1)] max_def)
  qed
  have zero: "opacity vh d = Fin 0" if "0.5 * vh \<le> d" for d
  proof -
    have p: "0 < d" using that assms by simp
    have "1 \<le> d / (vh * 0.5)" using that assms by (simp add: mult.commute)
    then show ?thesis by (simp add: opacity_down[OF assms p] max_def)
  qed
  have mv: "overlayOpacity (dragMove vh now y s) = opacity vh (y - sy)"
    if "isDragging (dragState s)" "startY (dragState s) = Some sy"
    by (simp add: dragMove_active[OF that])
  show ?thesis
    using range mono pos zero mv by (simp add: opacity_up)
qed

theorem opacity_fades_witness:
  "opacity 700 175 = Fin 0.5 \<and> opacity 700 350 = Fin 0 \<and> opacity 700 900 = Fin 0 \<and>
   opacity 700 (- 30) = Fin 1 \<and> js_le (opacity 700 350) (opacity 700 175) \<and>
   overlayOpacity (dragMove 700 1010 275 (startDrag 1000 100 (initialSheet True))) = Fin 0.5"
proof -
  have h: "(0::real) < 700" by simp
  have a: "isDragging (dragState (startDrag 1000 100 (initialSheet True))) \<and>
    startY (dragState (startDrag 1000 100 (initialSheet True))) = Some 100"
    by (simp add: startDrag_def)
  have v: "opacity 700 175 = Fin 0.5"
    by (simp add: opacity_def Let_def js_div_def)
  show ?thesis
    using a v opacity_fades[OF h, of "startDrag 1000 100 (initialSheet True)" 100 1010 275]
    by simp
qed

section \<open>Throttling\<close>

lemma call_delay: "delay (call now a w) = delay w"
  by (simp add: call_def)

lemma call_lastInvocation:
  "lastCall w = lastInvocation w \<Longrightarrow> lastCall (call now a w) = lastInvocation (call now a w)"
  by (simp add: call_def lastInvocation_def split: list.splits)

lemma calls_inv:
  "lastCall w = lastInvocation w \<Longrightarrow>
   lastCall (calls cs w) = lastInvocation (calls cs w) \<and> delay (calls cs w) = delay w"
proof (induction cs arbitrary: w)
  case Nil
  then show ?case by simp
next
  case (Cons c cs)
  obtain now a where c: "c = (now, a)" by (cases c)
  show ?case
    using Cons.IH[OF call_lastInvocation[OF Cons.prems], of now a]
    by (simp add: c call_delay)
qed

text \<open>
  C7, as stated, fails. With the clock reading 0 at the first call, \<open>0 - 0 >= 1000\<close> is
  false and the callback is not run: calls at the readings 0, 200 and 1100 run it at
  1100 only.
\<close>

theorem throttle_counterexample:
  "map fst (invoked (calls [(0, ()), (200, ()), (1100, ())] (throttle 1000))) = [1100] \<and>
   invoked (call 0 () (throttle 1000)) = []"
  by (simp add: throttle_def call_def)

text \<open>
  C7, amended. The first call of the wrapped callable runs the action exactly when the
  clock reading is at least the interval. Every call, after any earlier calls, runs
  the action exactly when the clock reading minus the reading of the last run (0
  before any run) is at least the interval, and is suppressed otherwise. With an
  interval of 1000 and a first reading \<open>T \<ge> 1000\<close>, calls at \<open>T\<close>, \<open>T + 200\<close> and
  \<open>T + 1100\<close> run the action at \<open>T\<close> and \<open>T + 1100\<close> only.
\<close>

theorem throttle_suppresses:
  "invoked (call now a (throttle d)) = (if d \<le> now then [(now, a)] else []) \<and>
   invoked (call now a (calls cs (throttle d))) =
     (if d \<le> now - lastInvocation (calls cs (throttle d))
      then invoked (calls cs (throttle d)) @ [(now, a)]
      else invoked (calls cs (throttle d))) \<and>
   (1000 \<le> T \<longrightarrow>
      map fst (invoked (calls [(T, a), (T + 200, b), (T + 1100, c)] (throttle 1000))) = [T, T + 1100])"
proof -
  have i: "lastCall (throttle d :: 'a throttled) = lastInvocation (throttle d)"
    by (simp add: throttle_def lastInvocation_def)
  have inv: "lastCall (calls cs (throttle d)) = lastInvocation (calls cs (throttle d :: 'a throttled))"
    "delay (calls cs (throttle d :: 'a throttled)) = d"
    using calls_inv[OF i, of cs] by (simp_all add: throttle_def)
  have first: "invoked (call now a (throttle d)) = (if d \<le> now then [(now, a)] else [])"
    by (simp add: call_def throttle_def)
  have step: "invoked (call now a (calls cs (throttle d))) =
     (if d \<le> now - lastInvocation (calls cs (throttle d))
      then invoked (calls cs (throttle d)) @ [(now, a)]
      else invoked (calls cs (throttle d)))"
    by (simp add: call_def inv)
  have ex: "map fst (invoked (calls [(T, a), (T + 200, b), (T + 1100, c)] (throttle 1000))) = [T, T + 1100]"
    if "1000 \<le> T"
    using that by (simp add: call_def throttle_def)
  show ?thesis
    using first step ex by simp
qed

theorem throttle_suppresses_witness:
  "map fst (invoked (calls [(5000, ()), (5200, ()), (6100, ())] (throttle 1000))) = [5000, 6100]"
proof -
  have h: "(1000::real) \<le> 5000" by simp
  show ?thesis
    using h throttle_suppresses[of 5000 "()" 1000 "[]" 5000 "()" "()"] by simp
qed

section \<open>The portal container is a singleton\<close>

lemma foldr_max_ge: "n \<in> set ns \<Longrightarrow> n \<le> foldr max ns (0::nat)"
  by (induction ns) auto

lemma createElement_fresh: "createElement doc \<notin> fst ` set doc"
proof
  assume "createElement doc \<in> fst ` set doc"
  then have "createElement doc \<in> set (map fst doc)" by simp
  then have "createElement doc \<le> foldr max (map fst doc) 0" by (rule foldr_max_ge)
  then show False by (simp add: createElement_def)
qed

lemma find_Some_mem: "find P xs = Some x \<Longrightarrow> x \<in> set xs \<and> P x"
  by (induction xs) (auto split: if_splits)

lemma querySelector_None: "(querySelector_id i doc = None) = (\<forall>(n, e) \<in> set doc. elem_id e \<noteq> i)"
  by (auto simp: querySelector_id_def find_None_iff)

lemma querySelector_append_new:
  "querySelector_id i doc = None \<Longrightarrow>
   querySelector_id i (doc @ [(n, \<lparr>elem_id = i, className = c\<rparr>)]) = Some n"
  by (induction doc) (auto simp: querySelector_id_def split: if_splits)

lemma createDiv_found: "querySelector_id ''iosify'' (snd (createDiv c doc)) = Some (fst (createDiv c doc))"
  by (auto simp: createDiv_def Let_def querySelector_append_new split: option.splits)

lemma containers_None: "querySelector_id ''iosify'' doc = None \<Longrightarrow> containers doc = []"
  by (auto simp: containers_def querySelector_None filter_empty_conv)

text \<open>
  C8. A second request returns what the first returned and leaves the document as the
  first left it. When no element with the id \<open>iosify\<close> is attached, the request appends
  one new element with that id and the given class, a node that was not in the
  document, and it is then the only one with that id. When such an element is
  attached, the request returns the first of them and the document is unchanged, so
  no element is created.
\<close>

theorem createDiv_idempotent:
  "createDiv c (snd (createDiv c doc)) = createDiv c doc \<and>
   (querySelector_id ''iosify'' doc = None \<longrightarrow>
      snd (createDiv c doc) = doc @ [(fst (createDiv c doc), \<lparr>elem_id = ''iosify'', className = c\<rparr>)] \<and>
      fst (createDiv c doc) \<notin> fst ` set doc \<and>
      length (containers (snd (createDiv c doc))) = 1) \<and>
   (\<forall>n. querySelector_id ''iosify'' doc = Some n \<longrightarrow>
      createDiv c doc = (n, doc) \<and> n \<in> fst ` set (containers doc)) \<and>
   querySelector_id ''iosify'' (snd (createDiv c doc)) = Some (fst (createDiv c doc)) \<and>
   containers (snd (createDiv c (snd (createDiv c doc)))) = containers (snd (createDiv c doc))"
proof -
  have idem: "createDiv c (snd (createDiv c doc)) = createDiv c doc"
    using createDiv_found[of c doc] by (simp add: createDiv_def[of c "snd (createDiv c doc)"])
  have new: "snd (createDiv c doc) = doc @ [(fst (createDiv c doc), \<lparr>elem_id = ''iosify'', className = c\<rparr>)]"
    "fst (createDiv c doc) \<notin> fst ` set doc" "length (containers (snd (createDiv c doc))) = 1"
    if "querySelector_id ''iosify'' doc = None"
    using that createElement_fresh[of doc] containers_None[OF that]
    by (simp_all add: createDiv_def Let_def) (simp add: containers_def)
  have old: "createDiv c doc = (n, doc) \<and> n \<in> fst ` set (containers doc)"
    if "querySelector_id ''iosify'' doc = Some n" for n
  proof -
    from that obtain e where "find (\<lambda>(n, e). elem_id e = ''iosify'') doc = Some (n, e)"
      by (auto simp: querySelector_id_def)
    then have "(n, e) \<in> set doc" "elem_id e = ''iosify''"
      by (auto dest: find_Some_mem)
    then have "(n, e) \<in> set (containers doc)" by (simp add: containers_def)
    then have "n \<in> fst ` set (containers doc)" by force
    then show ?thesis using that by (simp add: createDiv_def)
  qed
  show ?thesis
    using idem new old createDiv_found[of c doc] by simp
qed

theorem createDiv_idempotent_witness:
  "querySelector_id ''iosify'' [(7, \<lparr>elem_id = ''root'', className = ''app''\<rparr>)] = None \<and>
   createDiv ''c'' [(7, \<lparr>elem_id = ''root'', className = ''app''\<rparr>)] =
     (8, [(7, \<lparr>elem_id = ''root'', className = ''app''\<rparr>),
          (8, \<lparr>elem_id = ''iosify'', className = ''c''\<rparr>)]) \<and>
   createDiv ''c'' (snd (createDiv ''c'' [(7, \<lparr>elem_id = ''root'', className = ''app''\<rparr>)])) =
     (8, [(7, \<lparr>elem_id = ''root'', className = ''app''\<rparr>),
          (8, \<lparr>elem_id = ''iosify'', className = ''c''\<rparr>)])"
proof -
  let ?doc = "[(7, \<lparr>elem_id = ''root'', className = ''app''\<rparr>)] :: document"
  have h: "querySelector_id ''iosify'' ?doc = None"
    by (simp add: querySelector_id_def)
  have v: "fst (createDiv ''c'' ?doc) = 8"
    by (simp add: createDiv_def querySelector_id_def createElement_def Let_def)
  from h createDiv_idempotent[of "''c''" ?doc]
  have i: "createDiv ''c'' (snd (createDiv ''c'' ?doc)) = createDiv ''c'' ?doc"
    and n: "snd (createDiv ''c'' ?doc) =
      ?doc @ [(fst (createDiv ''c'' ?doc), \<lparr>elem_id = ''iosify'', className = ''c''\<rparr>)]"
    by blast+
  have "createDiv ''c'' ?doc = (fst (createDiv ''c'' ?doc), snd (createDiv ''c'' ?doc))"
    by simp
  also have "\<dots> = (8, ?doc @ [(8, \<lparr>elem_id = ''iosify'', className = ''c''\<rparr>)])"
    using n by (simp only: v)
  finally have c: "createDiv ''c'' ?doc =
    (8, [(7, \<lparr>elem_id = ''root'', className = ''app''\<rparr>),
         (8, \<lparr>elem_id = ''iosify'', className = ''c''\<rparr>)])"
    by simp
  show ?thesis
    using h i c by simp
qed

end
